theory Spec2Isabelle
  imports Main
begin

section \<open>Python values\<close>

text \<open>
  The values that \<open>json.loads\<close> builds and that the quiz page keeps in its session:
  \<open>None\<close>, \<open>bool\<close>, \<open>int\<close>, \<open>str\<close>, \<open>list\<close> and \<open>dict\<close> (its items in insertion
  order). JSON numbers with a fraction or an exponent decode to Python floats and are
  outside this model. A \<open>str\<close> is a list of characters; a character stands for a code
  point below 256.
\<close>

datatype json =
    JNull
  | JBool bool
  | JInt int
  | JStr string
  | JArr "json list"
  | JObj "(string \<times> json) list"

datatype error = AttributeError | IndexError | KeyError | TypeError

text \<open>Truth value of a Python object, as \<open>if x:\<close> and \<open>not x\<close> test it.\<close>

fun truthy :: "json \<Rightarrow> bool" where
  "truthy JNull = False"
| "truthy (JBool b) = b"
| "truthy (JInt i) = (i \<noteq> 0)"
| "truthy (JStr s) = (s \<noteq> [])"
| "truthy (JArr xs) = (xs \<noteq> [])"
| "truthy (JObj kvs) = (kvs \<noteq> [])"

section \<open>Helper functions\<close>

subsection \<open>\<open>clean_text\<close>\<close>

text \<open>
  \<open>str.strip()\<close> and the regular expression class \<open>\s\<close> use the same test on a \<open>str\<close>:
  the code points 9 to 13, 28 to 31, 32, and above ASCII 133 and 160.
\<close>

definition isspace :: "char \<Rightarrow> bool" where
  "isspace c = (of_char c \<in> {9, 10, 11, 12, 13, 28, 29, 30, 31, 32, 133, 160 :: nat})"

definition lstrip :: "string \<Rightarrow> string" where
  "lstrip s = dropWhile isspace s"

definition rstrip :: "string \<Rightarrow> string" where
  "rstrip s = rev (dropWhile isspace (rev s))"

definition strip :: "string \<Rightarrow> string" where
  "strip s = rstrip (lstrip s)"

text \<open>
  \<open>re.sub(r'\s+', ' ', t)\<close>: scanning from the left, every maximal run of whitespace is
  replaced by one space.
\<close>

function re_sub_ws :: "string \<Rightarrow> string" where
  "re_sub_ws [] = []"
| "re_sub_ws (c # cs) =
     (if isspace c then CHR '' '' # re_sub_ws (dropWhile isspace cs)
      else c # re_sub_ws cs)"
  by pat_completeness auto
termination
  by (relation "measure length") (auto simp: le_imp_less_Suc length_dropWhile_le)

definition clean_text :: "string \<Rightarrow> string" where
  "clean_text text = re_sub_ws (strip text)"

subsection \<open>\<open>normalize_answer\<close>\<close>

text \<open>\<open>re.match(r'([A-Da-d])', s)\<close>: group 1 of a match at the start of \<open>s\<close>, if any.\<close>

definition re_match_letter :: "string \<Rightarrow> string option" where
  "re_match_letter s =
     (case s of
        [] \<Rightarrow> None
      | c # _ \<Rightarrow> if c \<in> set ''ABCDabcd'' then Some [c] else None)"

text \<open>
  \<open>str.upper()\<close> on the ASCII letters; the only caller passes a match of \<open>[A-Da-d]\<close>.
\<close>

definition upper_char :: "char \<Rightarrow> char" where
  "upper_char c =
     (let n = of_char c :: nat in if 97 \<le> n \<and> n \<le> 122 then char_of (n - 32) else c)"

definition upper :: "string \<Rightarrow> string" where
  "upper s = map upper_char s"

text \<open>
  \<open>normalize_answer\<close> receives whatever the caller holds. A falsy value gives \<open>""\<close>; a
  truthy value that is not a \<open>str\<close> has no \<open>strip\<close> method, which raises.
\<close>

definition normalize_answer :: "json \<Rightarrow> error + string" where
  "normalize_answer answer =
     (if \<not> truthy answer then Inr []
      else case answer of
        JStr s \<Rightarrow>
          (case re_match_letter (strip s) of
             Some g \<Rightarrow> Inr (upper g)
           | None \<Rightarrow> Inr [])
      | _ \<Rightarrow> Inl AttributeError)"

subsection \<open>\<open>calculate_score\<close>\<close>

text \<open>
  \<open>sum(ua == ca for ua, ca in zip(user_answers, correct_answers))\<close>; both callers'
  lists hold normalized strings.
\<close>

definition calculate_score :: "string list \<Rightarrow> string list \<Rightarrow> int" where
  "calculate_score user_answers correct_answers =
     sum_list (map (\<lambda>(ua, ca). if ua = ca then 1 else 0) (zip user_answers correct_answers))"

section \<open>Core functions\<close>

subsection \<open>\<open>extract_json\<close>\<close>

text \<open>
  \<open>re.search(r'\[.*\]', ai_response, flags=re.DOTALL)\<close>: the search starts at the
  leftmost \<open>[\<close>; the greedy \<open>.*\<close>, which also crosses newlines, then runs to the last
  \<open>]\<close> of the text. There is no match when no \<open>]\<close> follows the leftmost \<open>[\<close>.
\<close>

definition re_search_array :: "string \<Rightarrow> string option" where
  "re_search_array s =
     (case dropWhile (\<lambda>c. c \<noteq> CHR ''['') s of
        [] \<Rightarrow> None
      | b # r \<Rightarrow>
          if CHR '']'' \<in> set r
          then Some (b # rev (dropWhile (\<lambda>c. c \<noteq> CHR '']'') (rev r)))
          else None)"

text \<open>The calls of \<open>st.error\<close> that the quiz page can make.\<close>

datatype ui_event =
    JsonParsingError     \<comment> \<open>\<open>"JSON parsing error: ..."\<close>\<close>
  | QuizParseFailed      \<comment> \<open>\<open>"Failed to parse AI response. ..."\<close>\<close>
  | AnswersParseFailed   \<comment> \<open>\<open>"Failed to parse AI answers. ..."\<close>\<close>

text \<open>
  \<open>json.loads\<close> belongs to the standard library and is a parameter here. It is only
  called on a match, a text that begins with \<open>[\<close>, on which the decoder returns a list
  or raises: \<open>loads m = None\<close> stands for raising, which \<open>extract_json\<close> catches and
  reports. The result \<open>None\<close> of \<open>extract_json\<close> is Python's \<open>None\<close>.
\<close>

definition extract_json ::
  "(string \<Rightarrow> json list option) \<Rightarrow> string \<Rightarrow> json list option \<times> ui_event list" where
  "extract_json loads ai_response =
     (case re_search_array ai_response of
        None \<Rightarrow> (None, [])
      | Some m \<Rightarrow>
          (case loads m of
             Some v \<Rightarrow> (Some v, [])
           | None \<Rightarrow> (None, [JsonParsingError])))"

section \<open>The quiz page\<close>

record session =
  quiz_data :: "json list option"
  user_answers :: "json list"

subsection \<open>Generating a quiz\<close>

text \<open>
  The body of \<open>if generate_clicked and quiz_text.strip()\<close>, from the reply of the
  model on: \<open>quiz_data\<close> is assigned first, then tested.
\<close>

definition generate_quiz ::
  "(string \<Rightarrow> json list option) \<Rightarrow> string \<Rightarrow> session \<Rightarrow> session \<times> ui_event list" where
  "generate_quiz loads ai_response st =
     (case extract_json loads ai_response of
        (q, ev) \<Rightarrow>
          (case q of
             Some (x # xs) \<Rightarrow>
               (st\<lparr>quiz_data := q, user_answers := replicate (length (x # xs)) (JStr [])\<rparr>, ev)
           | _ \<Rightarrow> (st\<lparr>quiz_data := q\<rparr>, ev @ [QuizParseFailed])))"

subsection \<open>Submitting a quiz\<close>

definition is_dict :: "json \<Rightarrow> bool" where
  "is_dict a = (case a of JObj _ \<Rightarrow> True | _ \<Rightarrow> False)"

text \<open>\<open>list(a.values())[0]\<close>: only a \<open>dict\<close> has \<open>values\<close>, and an empty one has no first.\<close>

definition first_value :: "json \<Rightarrow> error + json" where
  "first_value a =
     (case a of
        JObj kvs \<Rightarrow> (case kvs of [] \<Rightarrow> Inl IndexError | (k, v) # _ \<Rightarrow> Inr v)
      | _ \<Rightarrow> Inl AttributeError)"

text \<open>A list comprehension whose body can raise: the first exception ends it.\<close>

fun mapE :: "('a \<Rightarrow> error + 'b) \<Rightarrow> 'a list \<Rightarrow> error + 'b list" where
  "mapE f [] = Inr []"
| "mapE f (x # xs) =
     (case f x of
        Inl e \<Rightarrow> Inl e
      | Inr y \<Rightarrow> (case mapE f xs of Inl e \<Rightarrow> Inl e | Inr ys \<Rightarrow> Inr (y # ys)))"

definition flatten_answers :: "json list \<Rightarrow> error + json list" where
  "flatten_answers correct_answers =
     (case correct_answers of
        [] \<Rightarrow> Inl IndexError
      | a0 # _ \<Rightarrow>
          if is_dict a0 then mapE first_value correct_answers else Inr correct_answers)"

text \<open>
  \<open>str(a)\<close> is \<open>a\<close> itself on a \<open>str\<close>; on other values it is the built-in's text,
  the parameter \<open>str_other\<close>.
\<close>

definition py_str :: "(json \<Rightarrow> string) \<Rightarrow> json \<Rightarrow> string" where
  "py_str str_other a = (case a of JStr s \<Rightarrow> s | _ \<Rightarrow> str_other a)"

definition strip_marks :: "string \<Rightarrow> string" where
  "strip_marks s = filter (\<lambda>c. c \<noteq> CHR ''.'') (filter (\<lambda>c. c \<noteq> CHR '')'') s)"

definition normalized_answers :: "(json \<Rightarrow> string) \<Rightarrow> json list \<Rightarrow> error + string list" where
  "normalized_answers str_other correct_answers =
     mapE (\<lambda>a. normalize_answer (JStr (strip_marks (py_str str_other a)))) correct_answers"

text \<open>The answer key: the reply's list, flattened when its head is a \<open>dict\<close>, then normalized.\<close>

definition answer_key :: "(json \<Rightarrow> string) \<Rightarrow> json list \<Rightarrow> error + string list" where
  "answer_key str_other correct_answers =
     (case flatten_answers correct_answers of
        Inl e \<Rightarrow> Inl e
      | Inr flat \<Rightarrow> normalized_answers str_other flat)"

text \<open>\<open>q['question']\<close>.\<close>

definition getitem :: "json \<Rightarrow> string \<Rightarrow> error + json" where
  "getitem q k =
     (case q of
        JObj kvs \<Rightarrow> (case map_of kvs k of Some v \<Rightarrow> Inr v | None \<Rightarrow> Inl KeyError)
      | _ \<Rightarrow> Inl TypeError)"

text \<open>
  One line of the results: the question, the user's letter as shown (\<open>ua or 'No answer'\<close>
  on the wrong branch) and, when wrong, the correct letter.
\<close>

datatype verdict = is_Correct: Correct json string | Wrong json string string

definition result_line :: "string \<Rightarrow> string \<Rightarrow> json \<Rightarrow> verdict" where
  "result_line ua ca question =
     (if ua = ca then Correct question ua
      else Wrong question (if ua = [] then ''No answer'' else ua) ca)"

text \<open>The loop over \<open>zip(user_answers, normalized_answers, quiz_data)\<close>.\<close>

fun show_results :: "string list \<Rightarrow> string list \<Rightarrow> json list \<Rightarrow> error + verdict list" where
  "show_results (ua # uas) (ca # cas) (q # qs) =
     (case getitem q ''question'' of
        Inl e \<Rightarrow> Inl e
      | Inr question \<Rightarrow>
          (case show_results uas cas qs of
             Inl e \<Rightarrow> Inl e
           | Inr vs \<Rightarrow> Inr (result_line ua ca question # vs)))"
| "show_results _ _ _ = Inr []"

text \<open>
  What a submission shows: the parse failure, or the score, the total it is shown
  against and the result lines.
\<close>

datatype outcome = ParseFailure "ui_event list" | Graded int nat "verdict list"

text \<open>The \<open>else\<close> branch of \<open>if not correct_answers\<close>.\<close>

definition grade :: "(json \<Rightarrow> string) \<Rightarrow> json list \<Rightarrow> session \<Rightarrow> error + outcome" where
  "grade str_other correct_answers st =
     (case answer_key str_other correct_answers of
        Inl e \<Rightarrow> Inl e
      | Inr normalized \<Rightarrow>
     (case mapE normalize_answer (user_answers st) of
        Inl e \<Rightarrow> Inl e
      | Inr users \<Rightarrow>
     (case quiz_data st of
        None \<Rightarrow> Inl TypeError
      | Some qs \<Rightarrow>
     (case show_results users normalized qs of
        Inl e \<Rightarrow> Inl e
      | Inr vs \<Rightarrow> Inr (Graded (calculate_score users normalized) (length normalized) vs)))))"

text \<open>
  The body of \<open>if st.button("Submit Quiz")\<close>, from the reply of the model on. Nothing
  in it assigns to the session.
\<close>

definition submit_quiz ::
  "(string \<Rightarrow> json list option) \<Rightarrow> (json \<Rightarrow> string) \<Rightarrow> string \<Rightarrow> session
     \<Rightarrow> session \<times> (error + outcome)" where
  "submit_quiz loads str_other ai_answers st =
     (case extract_json loads ai_answers of
        (correct_answers, ev) \<Rightarrow>
          (case correct_answers of
             Some (a # as) \<Rightarrow> (st, grade str_other (a # as) st)
           | _ \<Rightarrow> (st, Inr (ParseFailure (ev @ [AnswersParseFailed])))))"

section \<open>A JSON decoder for concrete replies\<close>

text \<open>
  The decoder of the standard library on the part of JSON that needs neither floats
  nor escapes: whitespace, \<open>null\<close>, \<open>true\<close>, \<open>false\<close>, integers, strings without a
  backslash, arrays and objects. It follows the library's scanner: no whitespace is
  skipped before a value, a comma must be followed by a value, a repeated key keeps its
  place and takes the later value, and text after the value is an error. A text that
  uses a fraction, an exponent, \<open>NaN\<close>, \<open>Infinity\<close> or a backslash is outside what is
  modelled, and the answer \<open>None\<close> says nothing about it. The decoder serves to run the
  page on concrete replies; the general theorems hold for every decoder.
\<close>

definition json_ws :: "char \<Rightarrow> bool" where
  "json_ws c = (c = CHR '' '' \<or> c = CHR 0x09 \<or> c = CHR 0x0A \<or> c = CHR 0x0D)"

definition skip_ws :: "string \<Rightarrow> string" where
  "skip_ws s = dropWhile json_ws s"

definition is_digit :: "char \<Rightarrow> bool" where
  "is_digit c = (let n = of_char c :: nat in 48 \<le> n \<and> n \<le> 57)"

definition digits_value :: "string \<Rightarrow> nat" where
  "digits_value ds = foldl (\<lambda>a c. 10 * a + (of_char c - 48)) 0 ds"

definition float_tail :: "string \<Rightarrow> bool" where
  "float_tail t =
     (case t of
        [] \<Rightarrow> False
      | c # r \<Rightarrow>
          if c = CHR ''.'' then (case r of [] \<Rightarrow> False | d # _ \<Rightarrow> is_digit d)
          else if c = CHR ''e'' \<or> c = CHR ''E'' then
            (case r of
               [] \<Rightarrow> False
             | d # r' \<Rightarrow>
                 if d = CHR ''+'' \<or> d = CHR ''-''
                 then (case r' of [] \<Rightarrow> False | d' # _ \<Rightarrow> is_digit d')
                 else is_digit d)
          else False)"

text \<open>The integer part \<open>-?(?:0|[1-9][0-9]*)\<close> of the number pattern.\<close>

definition scan_number :: "string \<Rightarrow> (json \<times> string) option" where
  "scan_number s =
     (let neg = (s \<noteq> [] \<and> hd s = CHR ''-'');
          r = (if neg then tl s else s);
          ds = takeWhile is_digit r;
          ip = (if ds \<noteq> [] \<and> hd ds = CHR ''0'' then ''0'' else ds);
          t = drop (length ip) r
      in if ip = [] \<or> float_tail t then None
         else Some (JInt (if neg then - int (digits_value ip) else int (digits_value ip)), t))"

text \<open>The body of a string, after its opening quote.\<close>

definition scan_string :: "string \<Rightarrow> (string \<times> string) option" where
  "scan_string r =
     (let body = takeWhile (\<lambda>c. c \<noteq> CHR 0x22) r;
          t = dropWhile (\<lambda>c. c \<noteq> CHR 0x22) r
      in if t = [] then None
         else if list_ex (\<lambda>c. c = CHR 0x5C \<or> (of_char c :: nat) < 32) body then None
         else Some (body, tl t))"

fun dict_set :: "string \<Rightarrow> json \<Rightarrow> (string \<times> json) list \<Rightarrow> (string \<times> json) list" where
  "dict_set k v [] = [(k, v)]"
| "dict_set k v ((k', v') # d) =
     (if k' = k then (k, v) # d else (k', v') # dict_set k v d)"

definition dict_of_pairs :: "(string \<times> json) list \<Rightarrow> (string \<times> json) list" where
  "dict_of_pairs ps = foldl (\<lambda>d (k, v). dict_set k v d) [] ps"

text \<open>
  \<open>scan_once\<close> reads one value, \<open>scan_items\<close> the elements of an array from its first
  value on, \<open>scan_pairs\<close> the members of an object from the quote of its first key on.
  The first argument bounds the nesting; the length of the text is enough.
\<close>

fun scan_once :: "nat \<Rightarrow> string \<Rightarrow> (json \<times> string) option"
  and scan_items :: "nat \<Rightarrow> string \<Rightarrow> (json list \<times> string) option"
  and scan_pairs :: "nat \<Rightarrow> string \<Rightarrow> ((string \<times> json) list \<times> string) option" where
  "scan_once 0 s = None"
| "scan_once (Suc n) s =
     (case s of
        [] \<Rightarrow> None
      | c # r \<Rightarrow>
          if c = CHR 0x22 then
            (case scan_string r of None \<Rightarrow> None | Some (b, t) \<Rightarrow> Some (JStr b, t))
          else if c = CHR ''{'' then
            (case skip_ws r of
               [] \<Rightarrow> None
             | d # t \<Rightarrow>
                 if d = CHR ''}'' then Some (JObj [], t)
                 else if d = CHR 0x22 then
                   (case scan_pairs n (d # t) of
                      None \<Rightarrow> None
                    | Some (ps, u) \<Rightarrow> Some (JObj (dict_of_pairs ps), u))
                 else None)
          else if c = CHR ''['' then
            (case skip_ws r of
               [] \<Rightarrow> None
             | d # t \<Rightarrow>
                 if d = CHR '']'' then Some (JArr [], t)
                 else
                   (case scan_items n (d # t) of
                      None \<Rightarrow> None
                    | Some (xs, u) \<Rightarrow> Some (JArr xs, u)))
          else if take 4 s = ''null'' then Some (JNull, drop 4 s)
          else if take 4 s = ''true'' then Some (JBool True, drop 4 s)
          else if take 5 s = ''false'' then Some (JBool False, drop 5 s)
          else scan_number s)"
| "scan_items 0 s = None"
| "scan_items (Suc n) s =
     (case scan_once n s of
        None \<Rightarrow> None
      | Some (v, t) \<Rightarrow>
          (case skip_ws t of
             [] \<Rightarrow> None
           | d # u \<Rightarrow>
               if d = CHR '']'' then Some ([v], u)
               else if d = CHR '','' then
                 (case scan_items n (skip_ws u) of
                    None \<Rightarrow> None
                  | Some (vs, w) \<Rightarrow> Some (v # vs, w))
               else None))"
| "scan_pairs 0 s = None"
| "scan_pairs (Suc n) s =
     (case s of
        [] \<Rightarrow> None
      | c # r \<Rightarrow>
          if c \<noteq> CHR 0x22 then None
          else
            (case scan_string r of
               None \<Rightarrow> None
             | Some (k, t) \<Rightarrow>
                 (case skip_ws t of
                    [] \<Rightarrow> None
                  | d # u \<Rightarrow>
                      if d \<noteq> CHR '':'' then None
                      else
                        (case scan_once n (skip_ws u) of
                           None \<Rightarrow> None
                         | Some (v, w) \<Rightarrow>
                             (case skip_ws w of
                                [] \<Rightarrow> None
                              | e # x \<Rightarrow>
                                  if e = CHR ''}'' then Some ([(k, v)], x)
                                  else if e = CHR '','' then
                                    (case scan_pairs n (skip_ws x) of
                                       None \<Rightarrow> None
                                     | Some (ps, y) \<Rightarrow> Some ((k, v) # ps, y))
                                  else None)))))"

definition json_loads :: "string \<Rightarrow> json option" where
  "json_loads s =
     (case scan_once (Suc (length s)) (skip_ws s) of
        None \<Rightarrow> None
      | Some (v, t) \<Rightarrow> if skip_ws t = [] then Some v else None)"

text \<open>The decoder on a text that begins with \<open>[\<close>, where its value is a list.\<close>

definition json_loads_array :: "string \<Rightarrow> json list option" where
  "json_loads_array s = (case json_loads s of Some (JArr xs) \<Rightarrow> Some xs | _ \<Rightarrow> None)"

section \<open>Properties of the helper functions\<close>

lemma re_sub_ws_no_leading:
  "s = [] \<or> \<not> isspace (hd s) \<Longrightarrow> dropWhile isspace (re_sub_ws s) = re_sub_ws s"
  by (cases s) auto

lemma dropWhile_head: "dropWhile P xs = [] \<or> \<not> P (hd (dropWhile P xs))"
  using hd_dropWhile[of P xs] by blast

lemma isspace_space: "isspace (CHR '' '')"
  by (simp add: isspace_def)

lemma re_sub_ws_idem: "re_sub_ws (re_sub_ws s) = re_sub_ws s"
proof (induction s rule: re_sub_ws.induct)
  case 1
  show ?case by simp
next
  case (2 c cs)
  show ?case
  proof (cases "isspace c")
    case True
    let ?u = "dropWhile isspace cs"
    have "dropWhile isspace (re_sub_ws ?u) = re_sub_ws ?u"
      by (rule re_sub_ws_no_leading) (rule dropWhile_head)
    with True 2 show ?thesis by (simp add: isspace_space)
  next
    case False
    with 2 show ?thesis by simp
  qed
qed

lemma re_sub_ws_eq_Nil: "re_sub_ws s = [] \<longleftrightarrow> s = []"
  by (cases s) auto

lemma re_sub_ws_last:
  "s \<noteq> [] \<Longrightarrow> \<not> isspace (last s) \<Longrightarrow> last (re_sub_ws s) = last s"
proof (induction s rule: re_sub_ws.induct)
  case 1
  then show ?case by simp
next
  case (2 c cs)
  show ?case
  proof (cases "isspace c")
    case True
    let ?u = "dropWhile isspace cs"
    have cs: "cs \<noteq> []" using True 2(4) by (cases cs) auto
    have u: "?u \<noteq> []"
    proof
      assume "?u = []"
      then have "\<forall>x \<in> set cs. isspace x" by (simp add: dropWhile_eq_Nil_conv)
      with cs have "isspace (last cs)" by simp
      with cs 2(4) show False by simp
    qed
    have lu: "last ?u = last cs"
    proof -
      have "cs = takeWhile isspace cs @ ?u" by simp
      then have "last cs = last (takeWhile isspace cs @ ?u)" by simp
      also have "\<dots> = last ?u" using u by (rule last_appendR)
      finally show ?thesis by simp
    qed
    have lc: "last (c # cs) = last cs" using cs by simp
    have "\<not> isspace (last ?u)" using 2(4) lc lu by metis
    then have "last (re_sub_ws ?u) = last ?u" by (rule 2(1)[OF True u])
    moreover have "re_sub_ws ?u \<noteq> []" using u re_sub_ws_eq_Nil by blast
    moreover have "re_sub_ws (c # cs) = CHR '' '' # re_sub_ws ?u" using True by simp
    ultimately show ?thesis using lc lu by (metis last_ConsR)
  next
    case False
    show ?thesis
    proof (cases "cs = []")
      case True
      with False show ?thesis by simp
    next
      case nonempty: False
      with False 2(2)[OF False nonempty] 2(4) show ?thesis
        by (simp add: re_sub_ws_eq_Nil)
    qed
  qed
qed

lemma strip_no_leading: "strip s = [] \<or> \<not> isspace (hd (strip s))"
proof (cases "strip s = []")
  case True
  then show ?thesis by simp
next
  case False
  let ?l = "dropWhile isspace s"
  have l: "?l \<noteq> []"
  proof
    assume "?l = []"
    then have "strip s = []" unfolding strip_def rstrip_def lstrip_def by (metis dropWhile.simps(1) rev.simps(1))
    with False show False by blast
  qed
  have "\<not> isspace (hd ?l)" using l by (rule hd_dropWhile)
  moreover have "hd (strip s) = hd ?l"
  proof -
    have "rev ?l = takeWhile isspace (rev ?l) @ dropWhile isspace (rev ?l)" by simp
    then have "?l = strip s @ rev (takeWhile isspace (rev ?l))"
      unfolding strip_def rstrip_def lstrip_def by (metis rev_append rev_rev_ident)
    with False show ?thesis by (metis hd_append2)
  qed
  ultimately show ?thesis by simp
qed

lemma strip_no_trailing: "strip s = [] \<or> \<not> isspace (last (strip s))"
proof (cases "strip s = []")
  case True
  then show ?thesis by simp
next
  case False
  let ?r = "dropWhile isspace (rev (lstrip s))"
  have sr: "strip s = rev ?r" by (simp only: strip_def rstrip_def)
  have r: "?r \<noteq> []" using False sr by (metis rev.simps(1))
  then have "\<not> isspace (hd ?r)" by (rule hd_dropWhile)
  moreover have "last (strip s) = hd ?r"
    using r sr by (metis last_rev)
  ultimately show ?thesis by simp
qed

lemma lstrip_id: "s = [] \<or> \<not> isspace (hd s) \<Longrightarrow> lstrip s = s"
  by (cases s) (auto simp: lstrip_def)

lemma rstrip_id: "s = [] \<or> \<not> isspace (last s) \<Longrightarrow> rstrip s = s"
proof (cases "s = []")
  case True
  then show ?thesis by (simp add: rstrip_def)
next
  case False
  assume "s = [] \<or> \<not> isspace (last s)"
  with False have "\<not> isspace (hd (rev s))" by (simp add: hd_rev)
  moreover from False have "rev s \<noteq> []" by simp
  ultimately have "dropWhile isspace (rev s) = rev s" by (cases "rev s") auto
  then show ?thesis by (simp add: rstrip_def)
qed

lemma strip_clean_text: "strip (clean_text s) = clean_text s"
proof (cases "strip s = []")
  case True
  have "strip [] = []" by (simp add: strip_def rstrip_def lstrip_def)
  with True show ?thesis by (simp add: clean_text_def)
next
  case False
  let ?t = "strip s"
  have hd_ok: "\<not> isspace (hd ?t)" using strip_no_leading[of s] False by simp
  have last_ok: "\<not> isspace (last ?t)" using strip_no_trailing[of s] False by simp
  have ne: "re_sub_ws ?t \<noteq> []" using False by (simp add: re_sub_ws_eq_Nil)
  have "hd (re_sub_ws ?t) = hd ?t" using False hd_ok by (cases ?t) auto
  then have l: "lstrip (re_sub_ws ?t) = re_sub_ws ?t"
    using hd_ok by (intro lstrip_id) simp
  have "last (re_sub_ws ?t) = last ?t" using False last_ok by (rule re_sub_ws_last)
  then have "rstrip (re_sub_ws ?t) = re_sub_ws ?t"
    using last_ok by (intro rstrip_id) simp
  with l show ?thesis by (simp add: clean_text_def strip_def)
qed

text \<open>
  C9. \<open>clean_text\<close> is idempotent: applied twice to any string it gives what one
  application gives.
\<close>

theorem clean_text_idempotent: "clean_text (clean_text s) = clean_text s"
proof -
  have "clean_text (clean_text s) = re_sub_ws (clean_text s)"
    unfolding clean_text_def[of "clean_text s"] by (simp add: strip_clean_text)
  also have "\<dots> = clean_text s" by (simp add: clean_text_def re_sub_ws_idem)
  finally show ?thesis .
qed

lemma strip_Nil: "strip [] = []"
  by (simp add: strip_def rstrip_def lstrip_def)

lemma upper_letters:
  "upper ''A'' = ''A''" "upper ''B'' = ''B''" "upper ''C'' = ''C''" "upper ''D'' = ''D''"
  "upper ''a'' = ''A''" "upper ''b'' = ''B''" "upper ''c'' = ''C''" "upper ''d'' = ''D''"
  by code_simp+

text \<open>
  C7. On every string \<open>normalize_answer\<close> returns, without raising: the result is the
  upper-case form of the first character of the stripped input when that character is
  one of A to D in either case, and the empty string otherwise (empty input, no
  letter, a leading digit).
\<close>

theorem normalize_answer_leading_letter:
  "normalize_answer (JStr s) =
     Inr (case strip s of
            [] \<Rightarrow> []
          | c # _ \<Rightarrow>
              if c = CHR ''A'' \<or> c = CHR ''a'' then ''A''
              else if c = CHR ''B'' \<or> c = CHR ''b'' then ''B''
              else if c = CHR ''C'' \<or> c = CHR ''c'' then ''C''
              else if c = CHR ''D'' \<or> c = CHR ''d'' then ''D''
              else [])"
proof (cases "s = []")
  case True
  then show ?thesis by (simp add: normalize_answer_def strip_Nil)
next
  case False
  show ?thesis
  proof (cases "strip s")
    case Nil
    with False show ?thesis by (simp add: normalize_answer_def re_match_letter_def)
  next
    case (Cons c r)
    consider "c = CHR ''A''" | "c = CHR ''a''" | "c = CHR ''B''" | "c = CHR ''b''"
      | "c = CHR ''C''" | "c = CHR ''c''" | "c = CHR ''D''" | "c = CHR ''d''"
      | "c \<notin> set ''ABCDabcd''"
      by auto
    then show ?thesis
    proof cases
      case 9
      with False Cons show ?thesis
        by (simp add: normalize_answer_def re_match_letter_def)
    qed (use False Cons in \<open>simp_all add: normalize_answer_def re_match_letter_def upper_letters\<close>)
  qed
qed

lemma sum_indicator:
  "sum_list (map (\<lambda>x. if P x then 1 else 0) xs) = int (length (filter P xs))"
  by (induction xs) auto

lemma calculate_score_card:
  "calculate_score us cs =
     int (card {i. i < min (length us) (length cs) \<and> us ! i = cs ! i})"
proof -
  let ?P = "\<lambda>(ua, ca). ua = ca"
  have "calculate_score us cs = int (length (filter ?P (zip us cs)))"
    unfolding calculate_score_def
    using sum_indicator[of ?P "zip us cs"] by (simp add: case_prod_unfold)
  also have "length (filter ?P (zip us cs)) =
      card {i. i < length (zip us cs) \<and> ?P (zip us cs ! i)}"
    by (rule length_filter_conv_card)
  also have "{i. i < length (zip us cs) \<and> ?P (zip us cs ! i)} =
      {i. i < min (length us) (length cs) \<and> us ! i = cs ! i}"
    by auto
  finally show ?thesis .
qed

text \<open>
  C6. On two lists of equal length \<open>calculate_score\<close> returns the number of indices at
  which they agree; on A B C D A against A B X D B it returns 3.
\<close>

theorem calculate_score_counts:
  "(length us = length cs \<longrightarrow>
      calculate_score us cs = int (card {i. i < length us \<and> us ! i = cs ! i}))
   \<and> calculate_score [''A'', ''B'', ''C'', ''D'', ''A''] [''A'', ''B'', ''X'', ''D'', ''B''] = 3"
proof
  show "length us = length cs \<longrightarrow>
      calculate_score us cs = int (card {i. i < length us \<and> us ! i = cs ! i})"
    by (simp add: calculate_score_card)
  show "calculate_score [''A'', ''B'', ''C'', ''D'', ''A''] [''A'', ''B'', ''X'', ''D'', ''B''] = 3"
    by (simp add: calculate_score_def)
qed

theorem calculate_score_counts_witness:
  "length [''A'', ''B''] = length [''A'', ''C''] \<and>
   calculate_score [''A'', ''B''] [''A'', ''C''] =
     int (card {i. i < length [''A'', ''B''] \<and> [''A'', ''B''] ! i = [''A'', ''C''] ! i})"
proof -
  have h: "length [''A'', ''B''] = length [''A'', ''C'']" by simp
  from calculate_score_counts[of "[''A'', ''B'']" "[''A'', ''C'']"] h show ?thesis by blast
qed

text \<open>
  C2, as the code has it. \<open>calculate_score\<close> never fails: on lists of any two lengths
  it returns the number of agreeing indices below the shorter length, the rest of the
  longer list being ignored.
\<close>

theorem calculate_score_truncates:
  "calculate_score us cs =
     int (card {i. i < min (length us) (length cs) \<and> us ! i = cs ! i})"
  by (rule calculate_score_card)

theorem calculate_score_unequal_counterexample:
  "length [''A''] \<noteq> length [''A'', ''B''] \<and> calculate_score [''A''] [''A'', ''B''] = 1"
  by (simp add: calculate_score_def)

lemma mapE_first_value:
  "mapE first_value (map (\<lambda>(k, v, rest). JObj ((k, v) # rest)) ts) = Inr (map (\<lambda>(k, v, rest). v) ts)"
  by (induction ts) (auto simp: first_value_def)

lemma mapE_Inl:
  "a \<in> set xs \<Longrightarrow> f a = Inl e \<Longrightarrow> \<exists>e'. mapE f xs = Inl e'"
  by (induction xs) (auto split: sum.splits)

lemma mapE_single_key:
  "mapE first_value (map (\<lambda>(k, v). JObj [(k, v)]) kvs) = Inr (map snd kvs)"
  by (induction kvs) (auto simp: first_value_def)

text \<open>
  C8. An answer key that is a non-empty list of single-key mappings is flattened to
  the mappings' values, in order, and the key's letters are the normalized values; the
  list \<open>[{"1": "B"}, {"2": "A"}]\<close> gives \<open>["B", "A"]\<close>. (The empty list is turned down
  as a parse failure before any flattening.)
\<close>

theorem flatten_answers_single_key_mappings:
  "(kvs \<noteq> [] \<longrightarrow>
      flatten_answers (map (\<lambda>(k, v). JObj [(k, v)]) kvs) = Inr (map snd kvs)
      \<and> answer_key str_other (map (\<lambda>(k, v). JObj [(k, v)]) kvs)
          = normalized_answers str_other (map snd kvs))
   \<and> answer_key str_other [JObj [(''1'', JStr ''B'')], JObj [(''2'', JStr ''A'')]]
       = Inr [''B'', ''A'']"
proof
  show "kvs \<noteq> [] \<longrightarrow>
      flatten_answers (map (\<lambda>(k, v). JObj [(k, v)]) kvs) = Inr (map snd kvs)
      \<and> answer_key str_other (map (\<lambda>(k, v). JObj [(k, v)]) kvs)
          = normalized_answers str_other (map snd kvs)"
  proof
    assume ne: "kvs \<noteq> []"
    then obtain k v r where kvs: "kvs = (k, v) # r" by (cases kvs) auto
    have f: "flatten_answers (map (\<lambda>(k, v). JObj [(k, v)]) kvs) = Inr (map snd kvs)"
      using mapE_single_key[of kvs] by (simp add: flatten_answers_def kvs is_dict_def)
    then show "flatten_answers (map (\<lambda>(k, v). JObj [(k, v)]) kvs) = Inr (map snd kvs)
      \<and> answer_key str_other (map (\<lambda>(k, v). JObj [(k, v)]) kvs)
          = normalized_answers str_other (map snd kvs)"
      by (simp add: answer_key_def)
  qed
  show "answer_key str_other [JObj [(''1'', JStr ''B'')], JObj [(''2'', JStr ''A'')]]
       = Inr [''B'', ''A'']"
    by (simp add: answer_key_def flatten_answers_def is_dict_def first_value_def
        normalized_answers_def py_str_def strip_marks_def normalize_answer_def
        strip_def rstrip_def lstrip_def isspace_def re_match_letter_def upper_def upper_char_def)
qed

theorem flatten_answers_single_key_mappings_witness:
  "[(''1'', JStr ''b)'')] \<noteq> [] \<and>
   flatten_answers (map (\<lambda>(k, v). JObj [(k, v)]) [(''1'', JStr ''b)'')]) = Inr [JStr ''b)'']"
  using flatten_answers_single_key_mappings[of "[(''1'', JStr ''b)'')]"] by simp

text \<open>
  C10, as the code has it. Only the head of the list is inspected. When the head is
  a mapping and every element is a non-empty mapping, every element is replaced by its
  first value; when the head is a mapping and some element is not a mapping or is an
  empty mapping, the flattening raises and yields nothing. When the head is not a
  mapping nothing is flattened, later mappings included.
\<close>

theorem flatten_answers_head_decides:
  "(ts \<noteq> [] \<longrightarrow>
      flatten_answers (map (\<lambda>(k, v, rest). JObj ((k, v) # rest)) ts)
        = Inr (map (\<lambda>(k, v, rest). v) ts))
   \<and> (xs \<noteq> [] \<and> is_dict (hd xs) \<and> a \<in> set xs \<and> (\<not> is_dict a \<or> a = JObj [])
        \<longrightarrow> (\<exists>e. flatten_answers xs = Inl e))
   \<and> (xs \<noteq> [] \<and> \<not> is_dict (hd xs) \<longrightarrow> flatten_answers xs = Inr xs)"
proof (intro conjI impI)
  assume "ts \<noteq> []"
  then obtain t r where ts: "ts = t # r" by (cases ts) auto
  obtain k v rest where t: "t = (k, v, rest)" by (cases t) auto
  show "flatten_answers (map (\<lambda>(k, v, rest). JObj ((k, v) # rest)) ts)
        = Inr (map (\<lambda>(k, v, rest). v) ts)"
    using mapE_first_value[of ts] by (simp add: flatten_answers_def ts t is_dict_def)
next
  assume h: "xs \<noteq> [] \<and> is_dict (hd xs) \<and> a \<in> set xs \<and> (\<not> is_dict a \<or> a = JObj [])"
  then have "\<exists>e. first_value a = Inl e"
    by (cases a) (auto simp: first_value_def is_dict_def)
  then obtain e where "first_value a = Inl e" ..
  with h have "\<exists>e'. mapE first_value xs = Inl e'" by (intro mapE_Inl[of a xs first_value e]) auto
  with h show "\<exists>e. flatten_answers xs = Inl e"
    by (cases xs) (auto simp: flatten_answers_def)
next
  assume "xs \<noteq> [] \<and> \<not> is_dict (hd xs)"
  then show "flatten_answers xs = Inr xs"
    by (cases xs) (auto simp: flatten_answers_def)
qed

theorem flatten_answers_head_decides_witness:
  "flatten_answers [JObj [(''1'', JStr ''B''), (''x'', JNull)], JObj [(''2'', JStr ''A'')]]
      = Inr [JStr ''B'', JStr ''A'']
   \<and> (\<exists>e. flatten_answers [JObj [(''1'', JStr ''B'')], JObj []] = Inl e)
   \<and> flatten_answers [JStr ''B'', JObj [(''2'', JStr ''A'')]]
      = Inr [JStr ''B'', JObj [(''2'', JStr ''A'')]]"
proof (intro conjI)
  show "flatten_answers [JObj [(''1'', JStr ''B''), (''x'', JNull)], JObj [(''2'', JStr ''A'')]]
      = Inr [JStr ''B'', JStr ''A'']"
    using flatten_answers_head_decides[of "[(''1'', JStr ''B'', [(''x'', JNull)]), (''2'', JStr ''A'', [])]"]
    by simp
  show "\<exists>e. flatten_answers [JObj [(''1'', JStr ''B'')], JObj []] = Inl e"
    using flatten_answers_head_decides[of _ "[JObj [(''1'', JStr ''B'')], JObj []]" "JObj []"]
    by (simp add: is_dict_def)
  show "flatten_answers [JStr ''B'', JObj [(''2'', JStr ''A'')]]
      = Inr [JStr ''B'', JObj [(''2'', JStr ''A'')]]"
    using flatten_answers_head_decides[of _ "[JStr ''B'', JObj [(''2'', JStr ''A'')]]"]
    by (simp add: is_dict_def)
qed

theorem flatten_answers_mixed_counterexample:
  "is_dict (hd [JObj [(''1'', JStr ''B'')], JStr ''A''])
   \<and> flatten_answers [JObj [(''1'', JStr ''B'')], JStr ''A''] = Inl AttributeError"
  by (simp add: flatten_answers_def is_dict_def first_value_def)

lemma show_results_lines:
  "show_results us cs qs = Inr vs \<Longrightarrow>
     length vs = min (length us) (min (length cs) (length qs)) \<and>
     (\<forall>i < length vs. \<exists>q. getitem (qs ! i) ''question'' = Inr q \<and>
        vs ! i = result_line (us ! i) (cs ! i) q)"
proof (induction us cs qs arbitrary: vs rule: show_results.induct)
  case (1 ua uas ca cas q qs)
  from "1.prems" obtain question ws where
    q: "getitem q ''question'' = Inr question" and
    ws: "show_results uas cas qs = Inr ws" and
    vs: "vs = result_line ua ca question # ws"
    by (auto split: sum.splits)
  from "1.IH"[OF q ws] have
    len: "length ws = min (length uas) (min (length cas) (length qs))" and
    ix: "\<forall>i < length ws. \<exists>q. getitem (qs ! i) ''question'' = Inr q \<and>
        ws ! i = result_line (uas ! i) (cas ! i) q"
    by auto
  have "\<forall>i < length vs. \<exists>q'. getitem ((q # qs) ! i) ''question'' = Inr q' \<and>
        vs ! i = result_line ((ua # uas) ! i) ((ca # cas) ! i) q'"
  proof (intro allI impI)
    fix i assume "i < length vs"
    then show "\<exists>q'. getitem ((q # qs) ! i) ''question'' = Inr q' \<and>
        vs ! i = result_line ((ua # uas) ! i) ((ca # cas) ! i) q'"
      using q vs ix by (cases i) auto
  qed
  with len vs show ?case by simp
qed simp_all

lemma show_results_score:
  "show_results us cs qs = Inr vs \<Longrightarrow> length us = length cs \<Longrightarrow> length cs = length qs \<Longrightarrow>
     calculate_score us cs = int (length (filter is_Correct vs))"
proof (induction us cs qs arbitrary: vs rule: show_results.induct)
  case (1 ua uas ca cas q qs)
  from "1.prems"(1) obtain question ws where
    q: "getitem q ''question'' = Inr question" and
    ws: "show_results uas cas qs = Inr ws" and
    vs: "vs = result_line ua ca question # ws"
    by (auto split: sum.splits)
  from "1.IH"[OF q ws] "1.prems" have "calculate_score uas cas = int (length (filter is_Correct ws))"
    by simp
  then show ?case
    by (simp add: vs result_line_def calculate_score_def)
qed (simp_all add: calculate_score_def)

text \<open>
  C5, as the code has it. A result line is Correct exactly when the user's normalized
  letter equals the normalized correct letter, also when both are empty; otherwise it
  is Wrong, and an empty user letter is then shown as "No answer". When the three
  lists have one length, the score is the number of Correct lines.
\<close>

theorem result_lines_by_equality:
  "show_results us cs qs = Inr vs \<Longrightarrow>
     (\<forall>i < length vs.
        (is_Correct (vs ! i) \<longleftrightarrow> us ! i = cs ! i) \<and>
        (us ! i \<noteq> cs ! i \<longrightarrow>
           (\<exists>q. vs ! i = Wrong q (if us ! i = [] then ''No answer'' else us ! i) (cs ! i))))
     \<and> (length us = length cs \<and> length cs = length qs \<longrightarrow>
           calculate_score us cs = int (length (filter is_Correct vs)))"
proof
  assume a: "show_results us cs qs = Inr vs"
  show "\<forall>i < length vs.
        (is_Correct (vs ! i) \<longleftrightarrow> us ! i = cs ! i) \<and>
        (us ! i \<noteq> cs ! i \<longrightarrow>
           (\<exists>q. vs ! i = Wrong q (if us ! i = [] then ''No answer'' else us ! i) (cs ! i)))"
  proof (intro allI impI)
    fix i assume "i < length vs"
    with show_results_lines[OF a] obtain q where
      "vs ! i = result_line (us ! i) (cs ! i) q" by blast
    then show "(is_Correct (vs ! i) \<longleftrightarrow> us ! i = cs ! i) \<and>
        (us ! i \<noteq> cs ! i \<longrightarrow>
           (\<exists>q. vs ! i = Wrong q (if us ! i = [] then ''No answer'' else us ! i) (cs ! i)))"
      by (simp add: result_line_def)
  qed
  show "length us = length cs \<and> length cs = length qs \<longrightarrow>
           calculate_score us cs = int (length (filter is_Correct vs))"
    using show_results_score[OF a] by blast
qed

theorem result_lines_by_equality_witness:
  "show_results ['''', ''A''] [''B'', ''A''] [JObj [(''question'', JStr ''Q1'')], JObj [(''question'', JStr ''Q2'')]]
     = Inr [Wrong (JStr ''Q1'') ''No answer'' ''B'', Correct (JStr ''Q2'') ''A'']
   \<and> calculate_score ['''', ''A''] [''B'', ''A''] = 1"
proof -
  have h: "show_results ['''', ''A''] [''B'', ''A''] [JObj [(''question'', JStr ''Q1'')], JObj [(''question'', JStr ''Q2'')]]
     = Inr [Wrong (JStr ''Q1'') ''No answer'' ''B'', Correct (JStr ''Q2'') ''A'']"
    by (simp add: getitem_def result_line_def)
  from result_lines_by_equality[OF h] show ?thesis using h by simp
qed

theorem both_empty_correct_counterexample:
  \<open>submit_quiz json_loads_array (\<lambda>a. []) ''["E"]''
     \<lparr>quiz_data = Some [JObj [(''question'', JStr ''Q''),
                              (''options'', JArr [JStr ''1) w'', JStr ''2) x'', JStr ''3) y'', JStr ''4) z''])]],
      user_answers = [JStr ''1) w'']\<rparr>
   = (\<lparr>quiz_data = Some [JObj [(''question'', JStr ''Q''),
                              (''options'', JArr [JStr ''1) w'', JStr ''2) x'', JStr ''3) y'', JStr ''4) z''])]],
      user_answers = [JStr ''1) w'']\<rparr>,
      Inr (Graded 1 1 [Correct (JStr ''Q'') []]))\<close>
  by code_simp

lemma extract_json_Some_events:
  "fst (extract_json loads r) = Some v \<Longrightarrow> snd (extract_json loads r) = []"
  by (auto simp: extract_json_def split: option.splits)

lemma grade_not_failure: "grade so ca st \<noteq> Inr (ParseFailure ev)"
  by (auto simp: grade_def split: sum.splits option.splits)

text \<open>
  C1, as the code has it. A submission never changes the session. When the extraction
  of the answer key yields \<open>None\<close> or an empty list, the page reports that the answers
  could not be parsed and shows no score. That is the only case reported so: a
  non-empty key is graded whatever its length.
\<close>

theorem submit_quiz_parse_failure:
  "fst (submit_quiz loads so resp st) = st
   \<and> (fst (extract_json loads resp) = None \<or> fst (extract_json loads resp) = Some [] \<longrightarrow>
        snd (submit_quiz loads so resp st)
          = Inr (ParseFailure (snd (extract_json loads resp) @ [AnswersParseFailed])))
   \<and> ((\<exists>ev. snd (submit_quiz loads so resp st) = Inr (ParseFailure ev)) \<longrightarrow>
        fst (extract_json loads resp) = None \<or> fst (extract_json loads resp) = Some [])"
proof (intro conjI impI)
  show "fst (submit_quiz loads so resp st) = st"
    by (auto simp: submit_quiz_def split: prod.splits option.splits list.splits)
next
  assume "fst (extract_json loads resp) = None \<or> fst (extract_json loads resp) = Some []"
  then show "snd (submit_quiz loads so resp st)
          = Inr (ParseFailure (snd (extract_json loads resp) @ [AnswersParseFailed]))"
    by (auto simp: submit_quiz_def split: prod.splits option.splits list.splits)
next
  assume "\<exists>ev. snd (submit_quiz loads so resp st) = Inr (ParseFailure ev)"
  then show "fst (extract_json loads resp) = None \<or> fst (extract_json loads resp) = Some []"
    by (auto simp: submit_quiz_def grade_not_failure split: prod.splits option.splits list.splits)
qed

theorem submit_quiz_parse_failure_witness:
  "fst (extract_json json_loads_array ''The answers are A, B and C.'') = None
   \<and> submit_quiz json_loads_array (\<lambda>a. []) ''The answers are A, B and C.''
        \<lparr>quiz_data = Some [JObj [(''question'', JStr ''Q'')]], user_answers = [JStr ''A) x'']\<rparr>
      = (\<lparr>quiz_data = Some [JObj [(''question'', JStr ''Q'')]], user_answers = [JStr ''A) x'']\<rparr>,
         Inr (ParseFailure [AnswersParseFailed]))"
proof -
  have h: "fst (extract_json json_loads_array ''The answers are A, B and C.'') = None"
    by code_simp
  have e: "snd (extract_json json_loads_array ''The answers are A, B and C.'') = []"
    by code_simp
  from submit_quiz_parse_failure[of json_loads_array "\<lambda>a. []" "''The answers are A, B and C.''"
      "\<lparr>quiz_data = Some [JObj [(''question'', JStr ''Q'')]], user_answers = [JStr ''A) x'']\<rparr>"]
  show ?thesis using h e by (simp add: prod_eq_iff)
qed

theorem submit_quiz_short_key_counterexample:
  \<open>fst (extract_json json_loads_array ''["A"]'') = Some [JStr ''A'']
   \<and> length [JStr ''A'']
       \<noteq> length [JObj [(''question'', JStr ''Q1''),
                         (''options'', JArr [JStr ''A) w'', JStr ''B) x'', JStr ''C) y'', JStr ''D) z''])],
                   JObj [(''question'', JStr ''Q2''),
                         (''options'', JArr [JStr ''A) w'', JStr ''B) x'', JStr ''C) y'', JStr ''D) z''])]]
   \<and> snd (submit_quiz json_loads_array (\<lambda>a. []) ''["A"]''
        \<lparr>quiz_data =
           Some [JObj [(''question'', JStr ''Q1''),
                       (''options'', JArr [JStr ''A) w'', JStr ''B) x'', JStr ''C) y'', JStr ''D) z''])],
                 JObj [(''question'', JStr ''Q2''),
                       (''options'', JArr [JStr ''A) w'', JStr ''B) x'', JStr ''C) y'', JStr ''D) z''])]],
         user_answers = [JStr ''A) w'', JStr ''B) x'']\<rparr>)
      = Inr (Graded 1 1 [Correct (JStr ''Q1'') ''A''])\<close>
  by code_simp

text \<open>
  C3, as the code has it. The extraction result is always stored as the quiz. When it
  is a non-empty list, of any length and with elements of any shape, the user's answers
  are reset to as many empty strings and nothing is reported. When it is \<open>None\<close> or an
  empty list, the user's answers are left as they were and the failure to parse is
  reported.
\<close>

theorem generate_quiz_commits:
  "quiz_data (fst (generate_quiz loads resp st)) = fst (extract_json loads resp)
   \<and> (\<forall>xs. fst (extract_json loads resp) = Some xs \<and> xs \<noteq> [] \<longrightarrow>
         user_answers (fst (generate_quiz loads resp st)) = replicate (length xs) (JStr [])
         \<and> snd (generate_quiz loads resp st) = [])
   \<and> (fst (extract_json loads resp) = None \<or> fst (extract_json loads resp) = Some [] \<longrightarrow>
         user_answers (fst (generate_quiz loads resp st)) = user_answers st
         \<and> snd (generate_quiz loads resp st) = snd (extract_json loads resp) @ [QuizParseFailed])"
proof (intro conjI allI impI)
  show "quiz_data (fst (generate_quiz loads resp st)) = fst (extract_json loads resp)"
    by (auto simp: generate_quiz_def split: prod.splits option.splits list.splits)
next
  fix xs
  assume a: "fst (extract_json loads resp) = Some xs \<and> xs \<noteq> []"
  then obtain y ys where xs: "xs = y # ys" by (cases xs) auto
  from a have ev: "snd (extract_json loads resp) = []" by (simp add: extract_json_Some_events)
  from a xs ev have e: "extract_json loads resp = (Some (y # ys), [])" by (simp add: prod_eq_iff)
  show "user_answers (fst (generate_quiz loads resp st)) = replicate (length xs) (JStr [])"
    by (simp add: generate_quiz_def e xs)
  show "snd (generate_quiz loads resp st) = []"
    by (simp add: generate_quiz_def e)
next
  assume a: "fst (extract_json loads resp) = None \<or> fst (extract_json loads resp) = Some []"
  then show "user_answers (fst (generate_quiz loads resp st)) = user_answers st"
    by (auto simp: generate_quiz_def split: prod.splits option.splits list.splits)
  from a show "snd (generate_quiz loads resp st) = snd (extract_json loads resp) @ [QuizParseFailed]"
    by (auto simp: generate_quiz_def split: prod.splits option.splits list.splits)
qed

theorem generate_quiz_commits_witness:
  \<open>fst (extract_json json_loads_array ''Quiz: [{"question": "Q", "options": ["A) w", "B) x", "C) y", "D) z"]}]'')
     = Some [JObj [(''question'', JStr ''Q''), (''options'', JArr [JStr ''A) w'', JStr ''B) x'', JStr ''C) y'', JStr ''D) z''])]]
   \<and> user_answers (fst (generate_quiz json_loads_array
        ''Quiz: [{"question": "Q", "options": ["A) w", "B) x", "C) y", "D) z"]}]''
        \<lparr>quiz_data = None, user_answers = []\<rparr>)) = [JStr []]
   \<and> fst (extract_json json_loads_array ''Sorry, I cannot do that.'') = None
   \<and> snd (generate_quiz json_loads_array ''Sorry, I cannot do that.''
        \<lparr>quiz_data = Some [JObj [(''question'', JStr ''Q'')]], user_answers = [JStr ''A) w'']\<rparr>)
      = [QuizParseFailed]\<close>
proof -
  let ?r = \<open>''Quiz: [{"question": "Q", "options": ["A) w", "B) x", "C) y", "D) z"]}]''\<close>
  let ?q = "[JObj [(''question'', JStr ''Q''), (''options'', JArr [JStr ''A) w'', JStr ''B) x'', JStr ''C) y'', JStr ''D) z''])]]"
  have h1: "fst (extract_json json_loads_array ?r) = Some ?q" by code_simp
  have h2: "fst (extract_json json_loads_array ''Sorry, I cannot do that.'') = None" by code_simp
  have e2: "snd (extract_json json_loads_array ''Sorry, I cannot do that.'') = []" by code_simp
  from generate_quiz_commits[of json_loads_array ?r "\<lparr>quiz_data = None, user_answers = []\<rparr>"] h1
  have a: "user_answers (fst (generate_quiz json_loads_array ?r \<lparr>quiz_data = None, user_answers = []\<rparr>)) = [JStr []]"
    by simp
  from generate_quiz_commits[of json_loads_array "''Sorry, I cannot do that.''"
      "\<lparr>quiz_data = Some [JObj [(''question'', JStr ''Q'')]], user_answers = [JStr ''A) w'']\<rparr>"] h2 e2
  have b: "snd (generate_quiz json_loads_array ''Sorry, I cannot do that.''
        \<lparr>quiz_data = Some [JObj [(''question'', JStr ''Q'')]], user_answers = [JStr ''A) w'']\<rparr>)
      = [QuizParseFailed]"
    by simp
  from h1 a h2 b show ?thesis by blast
qed

theorem generate_quiz_shape_counterexample:
  \<open>generate_quiz json_loads_array ''[{"question": "Q", "options": ["A) w", "B) x"]}]''
      \<lparr>quiz_data = None, user_answers = []\<rparr>
   = (\<lparr>quiz_data = Some [JObj [(''question'', JStr ''Q''), (''options'', JArr [JStr ''A) w'', JStr ''B) x''])]],
       user_answers = [JStr []]\<rparr>, [])\<close>
  by code_simp

lemma re_search_array_embedded:
  assumes "js \<noteq> []" "hd js = CHR ''[''" "last js = CHR '']''"
    and "CHR ''['' \<notin> set p" "CHR '']'' \<notin> set s"
  shows "re_search_array (p @ js @ s) = Some js"
proof -
  from assms(1,2) obtain t where tx: "js = CHR ''['' # t" by (cases js) auto
  with assms(3) have t: "t \<noteq> []" "last t = CHR '']''" by (auto split: if_splits)
  have "dropWhile (\<lambda>c. c \<noteq> CHR ''['') (p @ js @ s) = dropWhile (\<lambda>c. c \<noteq> CHR ''['') (js @ s)"
    using assms(4) by (intro dropWhile_append2) auto
  then have d: "dropWhile (\<lambda>c. c \<noteq> CHR ''['') (p @ js @ s) = CHR ''['' # (t @ s)"
    by (simp add: tx)
  have m: "CHR '']'' \<in> set (t @ s)" using t by (metis last_in_set Un_iff set_append)
  have "dropWhile (\<lambda>c. c \<noteq> CHR '']'') (rev (t @ s))
      = dropWhile (\<lambda>c. c \<noteq> CHR '']'') (rev s @ rev t)" by simp
  also have "\<dots> = dropWhile (\<lambda>c. c \<noteq> CHR '']'') (rev t)"
    using assms(5) by (intro dropWhile_append2) auto
  also have "\<dots> = rev t"
  proof -
    from t have "rev t \<noteq> []" "hd (rev t) = CHR '']''" by (simp_all add: hd_rev)
    then show ?thesis by (cases "rev t") auto
  qed
  finally have "rev (dropWhile (\<lambda>c. c \<noteq> CHR '']'') (rev (t @ s))) = t" by simp
  with d m show ?thesis by (simp add: re_search_array_def tx)
qed

text \<open>
  C4, as the code has it. Let \<open>js\<close> be the text of a JSON array: it begins with \<open>[\<close>,
  ends with \<open>]\<close> and the decoder reads it as the list \<open>xs\<close>. Embedded between a prefix
  that holds no \<open>[\<close> and a suffix that holds no \<open>]\<close>, it is recovered: \<open>extract_json\<close>
  returns \<open>xs\<close> and reports nothing. (The match runs from the first \<open>[\<close> to the last
  \<open>]\<close> of the whole text, so a bracket in the prose changes what is decoded.)
\<close>

theorem extract_json_embedded:
  assumes "loads js = Some xs"
    and "js \<noteq> []" "hd js = CHR ''[''" "last js = CHR '']''"
    and "CHR ''['' \<notin> set p" "CHR '']'' \<notin> set s"
  shows "extract_json loads (p @ js @ s) = (Some xs, [])"
  using re_search_array_embedded[OF assms(2-6)] assms(1) by (simp add: extract_json_def)

theorem extract_json_embedded_witness:
  \<open>json_loads_array ''["B", "a)", "C."]'' = Some [JStr ''B'', JStr ''a)'', JStr ''C.'']
   \<and> extract_json json_loads_array (''Sure! Here are the answers: '' @ ''["B", "a)", "C."]'' @ '' Good luck.'')
      = (Some [JStr ''B'', JStr ''a)'', JStr ''C.''], [])\<close>
proof -
  let ?t = \<open>''["B", "a)", "C."]''\<close>
  have h1: "json_loads_array ?t = Some [JStr ''B'', JStr ''a)'', JStr ''C.'']" by code_simp
  have h2: "?t \<noteq> []" by simp
  have h3: "hd ?t = CHR ''[''" by simp
  have h4: "last ?t = CHR '']''" by simp
  have h5: "CHR ''['' \<notin> set ''Sure! Here are the answers: ''" by simp
  have h6: "CHR '']'' \<notin> set '' Good luck.''" by simp
  from extract_json_embedded[of json_loads_array ?t "[JStr ''B'', JStr ''a)'', JStr ''C.'']"
      "''Sure! Here are the answers: ''" "'' Good luck.''", OF h1 h2 h3 h4 h5 h6] h1
  show ?thesis by blast
qed

theorem extract_json_bracket_in_prose_counterexample:
  \<open>json_loads_array ''["B", "A"]'' = Some [JStr ''B'', JStr ''A'']
   \<and> extract_json json_loads_array (''Answers [final]: '' @ ''["B", "A"]'' @ '' Good luck.'')
      = (None, [JsonParsingError])\<close>
  by code_simp

end
